theory Spec2Isabelle
  imports Complex_Main "HOL-Library.AList" "HOL-Library.Multiset"
    "HOL-Library.Char_ord" "HOL-Library.List_Lexorder"
begin

section \<open>Errors raised by the Python code\<close>

datatype py_error = ValueError | IndexError | KeyError | ZeroDivisionError | OSError

section \<open>Matcher: the per-face decision of \<open>FaceRecognitionThread.run\<close>\<close>

text \<open>
  A feature vector is a list of numbers. Python computes on IEEE doubles; the model
  computes on exact reals, so rounding and NaN are outside it.

  \<open>face_recognition.face_distance\<close> belongs to a library outside the repository. The
  matcher takes it as the parameter \<open>face_distance\<close>: one distance per known encoding, in
  the order of the known encodings. \<open>euclidean_distance\<close> is what the library documents
  (the Euclidean norm of the difference) and serves as the instance for concrete runs.
\<close>

type_synonym encoding = "real list"

definition euclidean_distance :: "encoding \<Rightarrow> encoding \<Rightarrow> real" where
  "euclidean_distance known face =
     sqrt (sum_list (map (\<lambda>(a, b). (a - b)\<^sup>2) (zip known face)))"

text \<open>
  \<open>np.argmin\<close>: the index of the first occurrence of the least element; it raises
  ValueError on an empty array. \<open>argmin_from m best i ds\<close> scans the rest \<open>ds\<close> of the
  array, whose first element has index \<open>i\<close>, with \<open>m\<close> the least value met so far and
  \<open>best\<close> its index.
\<close>

fun argmin_from :: "real \<Rightarrow> nat \<Rightarrow> nat \<Rightarrow> real list \<Rightarrow> nat" where
  "argmin_from m best i [] = best"
| "argmin_from m best i (d # ds) =
     (if d < m then argmin_from d i (Suc i) ds else argmin_from m best (Suc i) ds)"

definition argmin :: "real list \<Rightarrow> py_error + nat" where
  "argmin ds = (case ds of [] \<Rightarrow> Inl ValueError | d # ds' \<Rightarrow> Inr (argmin_from d 0 1 ds'))"

text \<open>Python list indexing with a non-negative index.\<close>

definition getitem :: "'a list \<Rightarrow> nat \<Rightarrow> py_error + 'a" where
  "getitem xs i = (if i < length xs then Inr (xs ! i) else Inl IndexError)"

text \<open>
  The body of the loop over the faces of one frame:
  \<^verbatim>\<open>
  name = "Unknown"
  if len(self.known_face_encodings) > 0:
      face_distances = face_recognition.face_distance(self.known_face_encodings, face_encoding)
      best_match_index = np.argmin(face_distances)
      if face_distances[best_match_index] < self.threshold:
          name = self.known_face_names[best_match_index]
  \<close>
\<close>

definition match_face ::
  "(encoding \<Rightarrow> encoding \<Rightarrow> real) \<Rightarrow> encoding list \<Rightarrow> string list \<Rightarrow> real \<Rightarrow> encoding
     \<Rightarrow> py_error + string" where
  "match_face face_distance known_face_encodings known_face_names threshold face_encoding =
     (if length known_face_encodings > 0 then
        (let face_distances = map (\<lambda>known. face_distance known face_encoding) known_face_encodings
         in case argmin face_distances of
              Inl e \<Rightarrow> Inl e
            | Inr best_match_index \<Rightarrow>
                (case getitem face_distances best_match_index of
                   Inl e \<Rightarrow> Inl e
                 | Inr d \<Rightarrow>
                     if d < threshold then getitem known_face_names best_match_index
                     else Inr ''Unknown''))
      else Inr ''Unknown'')"

text \<open>
  A gallery is a list of (label, vector) pairs; the program keeps it as the two parallel
  lists \<open>known_face_names\<close> and \<open>known_face_encodings\<close>.
\<close>

type_synonym gallery = "(string \<times> encoding) list"

definition match_gallery ::
  "(encoding \<Rightarrow> encoding \<Rightarrow> real) \<Rightarrow> gallery \<Rightarrow> encoding \<Rightarrow> real \<Rightarrow> py_error + string" where
  "match_gallery face_distance G v t = match_face face_distance (map snd G) (map fst G) t v"

definition gallery_distances ::
  "(encoding \<Rightarrow> encoding \<Rightarrow> real) \<Rightarrow> gallery \<Rightarrow> encoding \<Rightarrow> real list" where
  "gallery_distances face_distance G v = map (\<lambda>e. face_distance (snd e) v) G"

section \<open>EncodingStore: building a dataset (\<open>LoadStudentsThread.run\<close>)\<close>

text \<open>
  Python strings are sequences of code points, HOL strings lists of bytes. The separator
  \<open>_\<close> and the suffixes \<open>.jpg\<close> and \<open>.png\<close> are ASCII, so splitting and suffix tests
  agree on UTF-8 text.
\<close>

definition endswith :: "string \<Rightarrow> string \<Rightarrow> bool" where
  "endswith s suffix =
     (length suffix \<le> length s \<and> drop (length s - length suffix) s = suffix)"

text \<open>\<open>s.split(sep)\<close> for a one-character separator: one more piece than separators.\<close>

fun str_split :: "char \<Rightarrow> string \<Rightarrow> string list" where
  "str_split sep [] = [[]]"
| "str_split sep (c # cs) =
     (if c = sep then [] # str_split sep cs
      else (case str_split sep cs of [] \<Rightarrow> [[c]] | w # ws \<Rightarrow> (c # w) # ws))"

text \<open>\<open>sep.join(pieces)\<close>.\<close>

fun str_join :: "string \<Rightarrow> string list \<Rightarrow> string" where
  "str_join sep [] = []"
| "str_join sep [w] = w"
| "str_join sep (w # ws) = w @ sep @ str_join sep ws"

text \<open>
  \<^verbatim>\<open>name = "_".join(filename.split("_")[:-1])  # Extract student name before underscore number\<close>
\<close>

definition name_of_filename :: "string \<Rightarrow> string" where
  "name_of_filename filename = str_join ''_'' (butlast (str_split (CHR ''_'') filename))"

text \<open>\<^verbatim>\<open>filename.endswith(".jpg") or filename.endswith(".png")\<close>\<close>

definition accepted :: "string \<Rightarrow> bool" where
  "accepted filename = (endswith filename ''.jpg'' \<or> endswith filename ''.png'')"

text \<open>
  The label the specification describes, for comparison with \<open>name_of_filename\<close>: the
  file name without its extension, and without a trailing numeric disambiguator
  (an underscore followed by digits) when it has one.
\<close>

definition is_digit :: "char \<Rightarrow> bool" where
  "is_digit c = (c \<in> set ''0123456789'')"

definition spec_label :: "string \<Rightarrow> string" where
  "spec_label filename =
     (let stem = take (length filename - 4) filename;
          digits = takeWhile is_digit (rev stem);
          rest = dropWhile is_digit (rev stem)
      in case rest of
           c # front \<Rightarrow> if digits \<noteq> [] \<and> c = CHR ''_'' then rev front else stem
         | [] \<Rightarrow> stem)"

text \<open>
  \<open>np.mean(encodings, axis=0)\<close> on a list of vectors: numpy stacks them into an array
  (and raises ValueError when their lengths differ), adds them up component by
  component, one vector after the other in the order of the list, and divides each sum
  by the number of vectors.

  The components are IEEE doubles. An addition or a division of doubles computes the
  exact result and rounds it to a double; \<open>fl\<close> is that rounding, a parameter of the
  model, since it belongs to the hardware and not to the repository. Nothing is assumed
  of \<open>fl\<close>: in particular the rounded addition need not be associative. (Results that
  overflow, and NaN, are outside the model.)

  The empty list is never averaged: every list in \<open>students_encodings\<close> holds a vector.
\<close>

definition vec_add :: "(real \<Rightarrow> real) \<Rightarrow> encoding \<Rightarrow> encoding \<Rightarrow> encoding" where
  "vec_add fl a b = map (\<lambda>(x, y). fl (x + y)) (zip a b)"

definition np_mean :: "(real \<Rightarrow> real) \<Rightarrow> encoding list \<Rightarrow> py_error + encoding" where
  "np_mean fl encodings =
     (case encodings of
        [] \<Rightarrow> Inr []
      | e # es \<Rightarrow>
          if list_all (\<lambda>v. length v = length e) es
          then Inr (map (\<lambda>s. fl (s / real (length encodings))) (foldl (vec_add fl) e es))
          else Inl ValueError)"

text \<open>
  One round of the loop over \<open>os.listdir(self.directory)\<close>. The parameter
  \<open>face_encodings\<close> stands for reading the image and calling the face library on it: the
  encodings found in the file, \<open>[]\<close> when the image cannot be read, shows no face or the
  library raises (the loop skips the file in each of these cases).
  \<^verbatim>\<open>
  if encodings:
      if name in students_encodings:
          students_encodings[name].append(encodings[0])
      else:
          students_encodings[name] = [encodings[0]]
      loaded_count += 1
  \<close>
  \<open>students_encodings\<close> is a dictionary; the association list keeps its insertion order.
\<close>

definition process_file ::
  "(string \<Rightarrow> encoding list) \<Rightarrow> (string \<times> encoding list) list \<times> nat \<Rightarrow> string
     \<Rightarrow> (string \<times> encoding list) list \<times> nat" where
  "process_file face_encodings acc filename =
     (let students_encodings = fst acc; loaded_count = snd acc in
      if accepted filename then
        (let name = name_of_filename filename in
         case face_encodings filename of
           [] \<Rightarrow> (students_encodings, loaded_count)
         | e # _ \<Rightarrow>
             (case map_of students_encodings name of
                Some es \<Rightarrow> (AList.update name (es @ [e]) students_encodings, loaded_count + 1)
              | None \<Rightarrow> (AList.update name [e] students_encodings, loaded_count + 1)))
      else (students_encodings, loaded_count))"

text \<open>
  \<^verbatim>\<open>
  for name, encodings in students_encodings.items():
      known_face_encodings.append(np.mean(encodings, axis=0))
      known_face_names.append(name)
  \<close>
  The averages in the order of the dictionary; the first \<open>np.mean\<close> that raises ends
  the loop (and the thread: nothing catches it).
\<close>

fun average_encodings ::
  "(real \<Rightarrow> real) \<Rightarrow> (string \<times> encoding list) list \<Rightarrow> py_error + encoding list" where
  "average_encodings fl [] = Inr []"
| "average_encodings fl ((name, encodings) # rest) =
     (case np_mean fl encodings of
        Inl e \<Rightarrow> Inl e
      | Inr m \<Rightarrow>
          (case average_encodings fl rest of
             Inl e \<Rightarrow> Inl e
           | Inr ms \<Rightarrow> Inr (m # ms)))"

text \<open>
  The whole run: the averaged encodings, the names (in the order of the dictionary) and
  the number of images loaded, as emitted by \<open>finished\<close>; or the exception that ended
  the run.
\<close>

definition load_students ::
  "(real \<Rightarrow> real) \<Rightarrow> (string \<Rightarrow> encoding list) \<Rightarrow> string list
     \<Rightarrow> py_error + (encoding list \<times> string list \<times> nat)" where
  "load_students fl face_encodings listing =
     (let acc = foldl (process_file face_encodings) ([], 0) listing
      in case average_encodings fl (fst acc) of
           Inl e \<Rightarrow> Inl e
         | Inr known_face_encodings \<Rightarrow> Inr (known_face_encodings, map fst (fst acc), snd acc))"

text \<open>
  The vector stored for a label in the result of a build (none when the label is not
  among the names), or the exception when the build raised.
\<close>

definition stored_vector ::
  "py_error + (encoding list \<times> string list \<times> nat) \<Rightarrow> string \<Rightarrow> py_error + encoding option" where
  "stored_vector built label =
     (case built of
        Inl e \<Rightarrow> Inl e
      | Inr b \<Rightarrow> Inr (map_of (zip (fst (snd b)) (fst b)) label))"

text \<open>
  The images of a listing that contribute a vector to a label: the accepted files with
  that label in which the face library finds a face.
\<close>

definition label_images :: "(string \<Rightarrow> encoding list) \<Rightarrow> string list \<Rightarrow> string \<Rightarrow> string list" where
  "label_images face_encodings listing label =
     filter (\<lambda>f. accepted f \<and> name_of_filename f = label \<and> face_encodings f \<noteq> []) listing"

text \<open>
  An instance of \<open>face_encodings\<close> for concrete runs: two images of one person, every
  other file without a face.
\<close>

definition example_face_encodings :: "string \<Rightarrow> encoding list" where
  "example_face_encodings filename =
     (if filename = ''A_1.jpg'' then [[1, 2]]
      else if filename = ''A_2.jpg'' then [[3, 4]]
      else [])"

text \<open>
  An instance of \<open>fl\<close> for concrete runs: IEEE 754 binary64 rounding to nearest, ties to
  even. A double has 53 significant bits, so a number of magnitude between \<open>2 powi e\<close>
  and \<open>2 powi (e + 1)\<close> is rounded to a multiple of \<open>2 powi (e - 52)\<close>; below
  \<open>2 powi (- 1022)\<close> the spacing stays that of the subnormal range. (A result beyond the largest double, which IEEE rounds to
  infinity, is outside the model.)
\<close>

definition round_half_even :: "real \<Rightarrow> int" where
  "round_half_even x =
     (if x - of_int \<lfloor>x\<rfloor> < 1 / 2 then \<lfloor>x\<rfloor>
      else if 1 / 2 < x - of_int \<lfloor>x\<rfloor> then \<lfloor>x\<rfloor> + 1
      else if even \<lfloor>x\<rfloor> then \<lfloor>x\<rfloor> else \<lfloor>x\<rfloor> + 1)"

definition round_to_double :: "real \<Rightarrow> real" where
  "round_to_double x =
     (if x = 0 then 0
      else of_int (round_half_even (x / 2 powi (max \<lfloor>log 2 \<bar>x\<bar>\<rfloor> (- 1022) - 52)))
             * 2 powi (max \<lfloor>log 2 \<bar>x\<bar>\<rfloor> (- 1022) - 52))"

text \<open>Three images of one person, for a run in which the order of the files matters.\<close>

definition example_three_encodings :: "string \<Rightarrow> encoding list" where
  "example_three_encodings filename =
     (if filename = ''B_1.jpg'' then [[36028797018963968]]
      else if filename = ''B_2.jpg'' then [[3]]
      else if filename = ''B_3.jpg'' then [[- 36028797018963968]]
      else [])"

section \<open>AttendanceLedger\<close>

subsection \<open>Time\<close>

text \<open>
  A \<open>datetime\<close> is a naive local time, kept as the number of microseconds since a fixed
  midnight. A timestamp is the string \<open>"%Y-%m-%d %H:%M:%S"\<close> the recognition thread
  emits; it denotes a whole second, and the model keeps the number of that second.
  Such strings always parse, so \<open>strptime\<close> has no error branch here. A date string
  \<open>"%Y-%m-%d"\<close> is kept as the number of its day.
\<close>

type_synonym datetime = int
type_synonym timestamp = int
type_synonym date_str = int

definition strptime :: "timestamp \<Rightarrow> datetime" where
  "strptime ts = ts * 1000000"

definition strftime_timestamp :: "datetime \<Rightarrow> timestamp" where
  "strftime_timestamp t = t div 1000000"

definition strftime_date :: "datetime \<Rightarrow> date_str" where
  "strftime_date t = t div 86400000000"

text \<open>
  \<open>datetime.timedelta\<close> is normalised: \<open>0 \<le> microseconds < 1000000\<close> and
  \<open>0 \<le> seconds < 86400\<close>, whole days in \<open>days\<close> (which may be negative).
\<close>

record timedelta =
  days :: int
  seconds :: int
  microseconds :: int

definition datetime_sub :: "datetime \<Rightarrow> datetime \<Rightarrow> timedelta" where
  "datetime_sub a b =
     \<lparr>days = (a - b) div 86400000000,
      seconds = ((a - b) mod 86400000000) div 1000000,
      microseconds = (a - b) mod 1000000\<rparr>"

subsection \<open>\<open>AttendanceManager.save_attendance\<close>\<close>

text \<open>
  The JSON object written for one date. \<open>absent_students\<close> is \<open>list(set(..) - set(..))\<close>,
  a list without repetition in an order Python leaves open; the model keeps the set.
  \<open>attendance_percentage\<close> is a Python float (the int 0 when nobody is known), here an
  exact real.
\<close>

record attendance_data =
  date :: date_str
  present_students :: "string list"
  all_students :: "string list"
  absent_students :: "string set"
  total_students :: nat
  present_count :: nat
  attendance_percentage :: real

text \<open>Python's \<open>/\<close> on two lengths: it raises ZeroDivisionError on a zero divisor.\<close>

definition py_truediv :: "nat \<Rightarrow> nat \<Rightarrow> py_error + real" where
  "py_truediv a b = (if b = 0 then Inl ZeroDivisionError else Inr (real a / real b))"

text \<open>
  \<^verbatim>\<open>(len(present_students) / len(all_students) * 100) if all_students else 0\<close>
\<close>

definition percentage_of :: "string list \<Rightarrow> string list \<Rightarrow> py_error + real" where
  "percentage_of present everyone =
     (if everyone \<noteq> [] then
        (case py_truediv (length present) (length everyone) of
           Inl e \<Rightarrow> Inl e
         | Inr q \<Rightarrow> Inr (q * 100))
      else Inr 0)"

text \<open>
  The directory \<open>attendance_records\<close> is a map from the date in the file name to the
  object stored in the file. Writing the file replaces what the date had before. The
  write itself is taken to succeed.
\<close>

type_synonym attendance_dir = "date_str \<rightharpoonup> attendance_data"

definition save_attendance ::
  "attendance_dir \<Rightarrow> datetime \<Rightarrow> string list \<Rightarrow> string list \<Rightarrow> py_error + attendance_dir" where
  "save_attendance files d present everyone =
     (case percentage_of present everyone of
        Inl e \<Rightarrow> Inl e
      | Inr pct \<Rightarrow>
          Inr (files(strftime_date d \<mapsto>
            \<lparr>date = strftime_date d,
             present_students = present,
             all_students = everyone,
             absent_students = set everyone - set present,
             total_students = length everyone,
             present_count = length present,
             attendance_percentage = pct\<rparr>)))"

definition get_attendance :: "attendance_dir \<Rightarrow> datetime \<Rightarrow> attendance_data option" where
  "get_attendance files d = files (strftime_date d)"

text \<open>
  What \<open>get_attendance\<close> finds for the date right after \<open>save_attendance\<close> wrote it
  (nothing when the save raised).
\<close>

definition saved_record ::
  "attendance_dir \<Rightarrow> datetime \<Rightarrow> string list \<Rightarrow> string list \<Rightarrow> attendance_data option" where
  "saved_record files d present everyone =
     (case save_attendance files d present everyone of
        Inl e \<Rightarrow> None
      | Inr files' \<Rightarrow> get_attendance files' d)"

text \<open>\<open>AttendanceManager.clear_attendance\<close>: the new directory and whether a file was removed.\<close>

definition manager_clear_attendance :: "attendance_dir \<Rightarrow> datetime \<Rightarrow> attendance_dir \<times> bool" where
  "manager_clear_attendance files d =
     (case files (strftime_date d) of
        Some r \<Rightarrow> (files(strftime_date d := None), True)
      | None \<Rightarrow> (files, False))"

subsection \<open>\<open>AttendanceSystem\<close>: the state the ledger works on\<close>

text \<open>
  The fields of \<open>AttendanceSystem\<close> that \<open>update_attendance_record\<close> reads or writes:
  the dictionary \<open>self.present_students\<close> (label to timestamp, in insertion order), the
  list \<open>self.known_face_names\<close>, the check box \<open>self.duplicate_prevention\<close>, and the
  record directory of its \<open>attendance_manager\<close>. \<open>writes\<close> is not a field of the
  program: it counts the calls of \<open>save_attendance\<close>, so that "no write" can be said.
\<close>

record attendance_system =
  self_present_students :: "(string \<times> timestamp) list"
  self_known_face_names :: "string list"
  self_duplicate_prevention :: bool
  attendance_files :: attendance_dir
  writes :: nat

text \<open>
  \<^verbatim>\<open>
  if not self.duplicate_prevention.isChecked() or \
     name not in self.present_students or \
     (datetime.now() - datetime.strptime(self.present_students[name], "%Y-%m-%d %H:%M:%S")).seconds > 30:
  \<close>
  The clock is read through the parameter \<open>now\<close>. (The program reads it a second time for
  the date of the file; the model uses one reading for both.)
\<close>

definition must_record :: "attendance_system \<Rightarrow> string \<Rightarrow> datetime \<Rightarrow> bool" where
  "must_record self name now =
     (\<not> self_duplicate_prevention self \<or>
      (case map_of (self_present_students self) name of
         None \<Rightarrow> True
       | Some stored \<Rightarrow> seconds (datetime_sub now (strptime stored)) > 30))"

definition update_attendance_record ::
  "attendance_system \<Rightarrow> string \<Rightarrow> timestamp \<Rightarrow> datetime \<Rightarrow> py_error + attendance_system" where
  "update_attendance_record self name ts now =
     (if must_record self name now then
        (let present = AList.update name ts (self_present_students self) in
         case save_attendance (attendance_files self) now (map fst present)
                (self_known_face_names self) of
           Inl e \<Rightarrow> Inl e
         | Inr files \<Rightarrow>
             Inr (self\<lparr>self_present_students := present,
                       attendance_files := files,
                       writes := writes self + 1\<rparr>))
      else Inr self)"

text \<open>\<open>AttendanceSystem.clear_attendance\<close>, once the user has confirmed.\<close>

definition clear_attendance :: "attendance_system \<Rightarrow> datetime \<Rightarrow> attendance_system" where
  "clear_attendance self now =
     self\<lparr>self_present_students := [],
          attendance_files := fst (manager_clear_attendance (attendance_files self) now)\<rparr>"

text \<open>
  What can happen to the ledger during a session: a sighting delivered by the
  recognition thread, the user clearing the attendance, ticking the check box, or
  loading another encoding set (which replaces \<open>self.known_face_names\<close>).
\<close>

datatype event =
    Sighting string timestamp datetime
  | Clear datetime
  | SetDuplicatePrevention bool
  | LoadEncodingSet "string list"

fun handle :: "attendance_system \<Rightarrow> event \<Rightarrow> py_error + attendance_system" where
  "handle self (Sighting name ts now) = update_attendance_record self name ts now"
| "handle self (Clear now) = Inr (clear_attendance self now)"
| "handle self (SetDuplicatePrevention b) = Inr (self\<lparr>self_duplicate_prevention := b\<rparr>)"
| "handle self (LoadEncodingSet names) = Inr (self\<lparr>self_known_face_names := names\<rparr>)"

fun run_events :: "attendance_system \<Rightarrow> event list \<Rightarrow> py_error + attendance_system" where
  "run_events self [] = Inr self"
| "run_events self (ev # evs) =
     (case handle self ev of Inl e \<Rightarrow> Inl e | Inr self' \<Rightarrow> run_events self' evs)"

text \<open>
  The state after \<open>__init__\<close>: nobody present, no encoding set loaded, duplicate
  prevention ticked; \<open>files\<close> is what earlier sessions left in the record directory.
\<close>

definition init_system :: "attendance_dir \<Rightarrow> attendance_system" where
  "init_system files =
     \<lparr>self_present_students = [],
      self_known_face_names = [],
      self_duplicate_prevention = True,
      attendance_files = files,
      writes = 0\<rparr>"

section \<open>EncodingStore: saving and loading a dataset\<close>

text \<open>
  The two files of a dataset directory. \<open>pickle\<close> and \<open>json\<close> are library code; a file
  is modelled by what it holds, not by its bytes. \<open>Complete c\<close> is a file whose write was
  finished. \<open>Truncated c n\<close> is a file opened for writing \<open>c\<close> (which empties it) whose
  write stopped after \<open>n\<close> bytes, before the serialisation of \<open>c\<close> was complete.
\<close>

record dataset_info =
  info_name :: string
  info_description :: string
  created_date :: timestamp
  student_count :: nat
  images_processed :: nat
  source_directory :: string

datatype file_content =
    Pickle "encoding list" "string list"
  | Json dataset_info

datatype stored_file = Complete file_content | Truncated file_content nat

type_synonym filesystem = "string \<rightharpoonup> stored_file"

text \<open>
  \<open>save_encoding_set\<close> runs inside \<open>try: ... except Exception\<close>. The places where its
  file operations can raise are the values of \<open>io_fault\<close>: opening either file, or
  dumping into it after some bytes went out. \<open>NoFault\<close> is the run in which none does.
\<close>

datatype io_fault =
    NoFault
  | OpenEncodingsFails
  | DumpEncodingsFails nat
  | OpenInfoFails
  | DumpInfoFails nat

definition path_join :: "string \<Rightarrow> string \<Rightarrow> string" where
  "path_join dir fname = dir @ ''/'' @ fname"

text \<open>
  \<^verbatim>\<open>
  encoding_file = os.path.join(dataset_path, 'encodings.pkl')
  with open(encoding_file, 'wb') as f:
      pickle.dump({'encodings': encodings, 'names': names}, f)
  info_file = os.path.join(dataset_path, 'info.json')
  info_data = {...}
  with open(info_file, 'w') as f:
      json.dump(info_data, f, indent=4)
  \<close>
  The result is the file system afterwards and the exception the handler caught, if any
  (it shows "Failed to save dataset" then, and the success message otherwise).
\<close>

definition save_encoding_set ::
  "io_fault \<Rightarrow> filesystem \<Rightarrow> string \<Rightarrow> string \<Rightarrow> string \<Rightarrow> encoding list \<Rightarrow> string list
     \<Rightarrow> nat \<Rightarrow> string \<Rightarrow> datetime \<Rightarrow> filesystem \<times> py_error option" where
  "save_encoding_set fault fs dataset_path name description encodings names img_count source_dir now =
     (let encoding_file = path_join dataset_path ''encodings.pkl'';
          pickled = Pickle encodings names;
          info_file = path_join dataset_path ''info.json'';
          info_data = Json \<lparr>info_name = name,
                            info_description = description,
                            created_date = strftime_timestamp now,
                            student_count = card (set names),
                            images_processed = img_count,
                            source_directory = source_dir\<rparr>
      in case fault of
           OpenEncodingsFails \<Rightarrow> (fs, Some OSError)
         | DumpEncodingsFails n \<Rightarrow> (fs(encoding_file \<mapsto> Truncated pickled n), Some OSError)
         | OpenInfoFails \<Rightarrow> (fs(encoding_file \<mapsto> Complete pickled), Some OSError)
         | DumpInfoFails n \<Rightarrow>
             (fs(encoding_file \<mapsto> Complete pickled, info_file \<mapsto> Truncated info_data n),
              Some OSError)
         | NoFault \<Rightarrow>
             (fs(encoding_file \<mapsto> Complete pickled, info_file \<mapsto> Complete info_data), None))"

text \<open>
  \<open>load_selected_encoding_set\<close>: \<open>pickle.load\<close> of \<open>encodings.pkl\<close>. A missing file, a
  truncated one or one that is no pickle of a gallery makes the load raise.
\<close>

definition load_encoding_set :: "filesystem \<Rightarrow> string \<Rightarrow> py_error + (encoding list \<times> string list)" where
  "load_encoding_set fs dataset_path =
     (case fs (path_join dataset_path ''encodings.pkl'') of
        Some (Complete (Pickle encodings names)) \<Rightarrow> Inr (encodings, names)
      | Some (Complete (Json info)) \<Rightarrow> Inl ValueError
      | Some (Truncated c n) \<Rightarrow> Inl ValueError
      | None \<Rightarrow> Inl OSError)"

section \<open>Matcher: proofs\<close>

subsection \<open>Properties of \<open>argmin\<close>\<close>

lemma argmin_from_spec:
  assumes "best < i" and "i = length pre" and "pre ! best = m"
    and "\<forall>j < length pre. m \<le> pre ! j" and "\<forall>j < best. m < pre ! j"
  shows "argmin_from m best i ds < length (pre @ ds)
       \<and> (\<forall>j < length (pre @ ds). (pre @ ds) ! argmin_from m best i ds \<le> (pre @ ds) ! j)
       \<and> (\<forall>j < argmin_from m best i ds. (pre @ ds) ! argmin_from m best i ds < (pre @ ds) ! j)"
  using assms
proof (induction ds arbitrary: m best i pre)
  case Nil
  then show ?case by simp
next
  case (Cons d ds)
  let ?pre = "pre @ [d]"
  show ?case
  proof (cases "d < m")
    case True
    have a: "i < Suc i" by simp
    have b: "Suc i = length ?pre" using Cons.prems by simp
    have c: "?pre ! i = d" using Cons.prems by (simp add: nth_append)
    have d: "\<forall>j < length ?pre. d \<le> ?pre ! j"
      using Cons.prems True by (auto simp: nth_append less_Suc_eq)
    have e: "\<forall>j < i. d < ?pre ! j"
      using Cons.prems True by (auto simp: nth_append)
    from Cons.IH[OF a b c d e] True show ?thesis by simp
  next
    case False
    have a: "best < Suc i" using Cons.prems by simp
    have b: "Suc i = length ?pre" using Cons.prems by simp
    have c: "?pre ! best = m" using Cons.prems by (simp add: nth_append)
    have d: "\<forall>j < length ?pre. m \<le> ?pre ! j"
      using Cons.prems False by (auto simp: nth_append less_Suc_eq)
    have e: "\<forall>j < best. m < ?pre ! j"
      using Cons.prems by (auto simp: nth_append)
    from Cons.IH[OF a b c d e] False show ?thesis by simp
  qed
qed

lemma argmin_first_least:
  assumes "ds \<noteq> []"
  shows "\<exists>i. argmin ds = Inr i \<and> i < length ds
           \<and> (\<forall>j < length ds. ds ! i \<le> ds ! j) \<and> (\<forall>j < i. ds ! i < ds ! j)"
proof -
  from assms obtain d ds' where ds: "ds = d # ds'" by (cases ds) auto
  have "argmin_from d 0 1 ds' < length ([d] @ ds')
       \<and> (\<forall>j < length ([d] @ ds'). ([d] @ ds') ! argmin_from d 0 1 ds' \<le> ([d] @ ds') ! j)
       \<and> (\<forall>j < argmin_from d 0 1 ds'. ([d] @ ds') ! argmin_from d 0 1 ds' < ([d] @ ds') ! j)"
    by (rule argmin_from_spec) simp_all
  then show ?thesis by (simp add: ds argmin_def)
qed

lemma least_is_Min:
  assumes "i < length ds" and "\<forall>j < length ds. ds ! i \<le> (ds ! j :: real)"
  shows "ds ! i = Min (set ds)"
proof -
  have "ds ! i \<in> set ds" using assms(1) by simp
  moreover have "\<forall>x \<in> set ds. ds ! i \<le> x" using assms(2) by (auto simp: in_set_conv_nth)
  ultimately show ?thesis by (metis List.finite_set Min_eqI)
qed

text \<open>
  What the matcher computes on a gallery: Unknown on the empty gallery; otherwise the
  first entry of least distance decides, and it is accepted exactly when its distance is
  strictly below the threshold.
\<close>

lemma match_gallery_empty: "match_gallery fd [] v t = Inr ''Unknown''"
  by (simp add: match_gallery_def match_face_def)

lemma match_gallery_nonempty:
  assumes "G \<noteq> []"
  shows "\<exists>i < length G.
           gallery_distances fd G v ! i = Min (set (gallery_distances fd G v))
         \<and> (\<forall>j < i. gallery_distances fd G v ! i < gallery_distances fd G v ! j)
         \<and> match_gallery fd G v t =
             Inr (if gallery_distances fd G v ! i < t then fst (G ! i) else ''Unknown'')"
proof -
  let ?D = "gallery_distances fd G v"
  have D: "?D = map (\<lambda>known. fd known v) (map snd G)"
    by (simp add: gallery_distances_def comp_def)
  have len: "length ?D = length G" by (simp add: gallery_distances_def)
  have "?D \<noteq> []" using assms by (simp add: gallery_distances_def)
  from argmin_first_least[OF this] obtain i where i:
    "argmin ?D = Inr i" "i < length ?D" "\<forall>j < length ?D. ?D ! i \<le> ?D ! j" "\<forall>j < i. ?D ! i < ?D ! j"
    by blast
  have m: "?D ! i = Min (set ?D)" using i(2,3) by (rule least_is_Min)
  have r: "match_gallery fd G v t = Inr (if ?D ! i < t then fst (G ! i) else ''Unknown'')"
    unfolding match_gallery_def match_face_def D[symmetric] Let_def
    using assms i(1,2) len by (simp add: getitem_def)
  have "i < length G" using i(2) len by simp
  with m r i(4) show ?thesis by blast
qed

text \<open>
  Claim C1, as far as the program follows it. For every gallery \<open>G\<close>, query vector
  \<open>v\<close> and threshold \<open>t\<close>, the match returns Unknown when \<open>G\<close> is empty or when the
  least distance from \<open>v\<close> to the gallery entries is \<open>t\<close> or more, and otherwise
  returns the label of the first entry at least distance. The comparison with the
  threshold is strict: an entry at distance exactly \<open>t\<close> is rejected.
\<close>

theorem match_strict_threshold:
  "(G = [] \<longrightarrow> match_gallery fd G v t = Inr ''Unknown'')
 \<and> (G \<noteq> [] \<and> t \<le> Min (set (gallery_distances fd G v))
      \<longrightarrow> match_gallery fd G v t = Inr ''Unknown'')
 \<and> (G \<noteq> [] \<and> Min (set (gallery_distances fd G v)) < t
      \<longrightarrow> (\<exists>i < length G.
             gallery_distances fd G v ! i = Min (set (gallery_distances fd G v))
           \<and> (\<forall>j < i. gallery_distances fd G v ! i < gallery_distances fd G v ! j)
           \<and> match_gallery fd G v t = Inr (fst (G ! i))))"
proof (cases "G = []")
  case True
  then show ?thesis by (simp add: match_gallery_empty)
next
  case False
  from match_gallery_nonempty[OF False, of fd v t] obtain i where i:
    "i < length G"
    "gallery_distances fd G v ! i = Min (set (gallery_distances fd G v))"
    "\<forall>j < i. gallery_distances fd G v ! i < gallery_distances fd G v ! j"
    "match_gallery fd G v t =
       Inr (if gallery_distances fd G v ! i < t then fst (G ! i) else ''Unknown'')"
    by blast
  have "t \<le> Min (set (gallery_distances fd G v)) \<Longrightarrow> match_gallery fd G v t = Inr ''Unknown''"
    using i(2,4) by simp
  moreover have "Min (set (gallery_distances fd G v)) < t \<Longrightarrow>
      \<exists>i < length G.
             gallery_distances fd G v ! i = Min (set (gallery_distances fd G v))
           \<and> (\<forall>j < i. gallery_distances fd G v ! i < gallery_distances fd G v ! j)
           \<and> match_gallery fd G v t = Inr (fst (G ! i))"
    using i by auto
  ultimately show ?thesis using False by blast
qed

text \<open>
  The theorem at a gallery of two entries, Alice at distance 1 and Bob at distance 2 from
  the query, with threshold 2: the least distance is below the threshold and an entry at
  that distance is returned.
\<close>

theorem match_strict_threshold_witness:
  "[(''Alice'', [0::real]), (''Bob'', [3])] \<noteq> []
 \<and> Min (set (gallery_distances euclidean_distance [(''Alice'', [0::real]), (''Bob'', [3])] [1])) < 2
 \<and> (\<exists>i < length [(''Alice'', [0::real]), (''Bob'', [3])].
        gallery_distances euclidean_distance [(''Alice'', [0::real]), (''Bob'', [3])] [1] ! i
          = Min (set (gallery_distances euclidean_distance [(''Alice'', [0::real]), (''Bob'', [3])] [1]))
      \<and> (\<forall>j < i. gallery_distances euclidean_distance [(''Alice'', [0::real]), (''Bob'', [3])] [1] ! i
                   < gallery_distances euclidean_distance [(''Alice'', [0::real]), (''Bob'', [3])] [1] ! j)
      \<and> match_gallery euclidean_distance [(''Alice'', [0::real]), (''Bob'', [3])] [1] 2
          = Inr (fst ([(''Alice'', [0::real]), (''Bob'', [3])] ! i)))"
proof -
  have h1: "[(''Alice'', [0::real]), (''Bob'', [3])] \<noteq> []" by simp
  have h2: "Min (set (gallery_distances euclidean_distance
              [(''Alice'', [0::real]), (''Bob'', [3])] [1])) < 2"
    by (simp add: euclidean_distance_def gallery_distances_def)
  note th = match_strict_threshold
    [of "[(''Alice'', [0::real]), (''Bob'', [3])]" euclidean_distance "[1]" 2]
  note ex = th [THEN conjunct2, THEN conjunct2, rule_format, OF conjI [OF h1 h2]]
  show ?thesis
    by (intro conjI) (rule h1, rule h2, rule ex)
qed

text \<open>
  Claim C1 as written fails at the boundary: with Alice at distance exactly 1 and
  threshold 1 the claim accepts Alice, the program answers Unknown.
\<close>

theorem match_boundary_counterexample:
  "euclidean_distance [0] [1] = 1
 \<and> match_gallery euclidean_distance [(''Alice'', [0])] [1] 1 = Inr ''Unknown''"
  by (simp add: euclidean_distance_def match_gallery_def match_face_def argmin_def getitem_def)

text \<open>
  Claim C7, as far as the program follows it. Among the gallery entries at equal least
  distance from the query, the match selects the one that comes first in the gallery
  (the lowest index), whatever the labels are: if entry \<open>i\<close> is the first at least
  distance, entry \<open>j\<close> after it is at the same distance and that distance is below the
  threshold, the result is the label of entry \<open>i\<close>.
\<close>

theorem match_tie_first_in_gallery:
  assumes "i < j" and "j < length G"
    and "gallery_distances fd G v ! i = Min (set (gallery_distances fd G v))"
    and "gallery_distances fd G v ! j = gallery_distances fd G v ! i"
    and "\<forall>k < i. gallery_distances fd G v ! k \<noteq> Min (set (gallery_distances fd G v))"
    and "gallery_distances fd G v ! i < t"
  shows "match_gallery fd G v t = Inr (fst (G ! i))"
proof -
  have "G \<noteq> []" using assms(2) by auto
  from match_gallery_nonempty[OF this, of fd v t] obtain m where m:
    "m < length G"
    "gallery_distances fd G v ! m = Min (set (gallery_distances fd G v))"
    "\<forall>k < m. gallery_distances fd G v ! m < gallery_distances fd G v ! k"
    "match_gallery fd G v t =
       Inr (if gallery_distances fd G v ! m < t then fst (G ! m) else ''Unknown'')"
    by blast
  have "\<not> m < i" using assms(5) m(2) by blast
  moreover have "\<not> i < m"
  proof
    assume "i < m"
    then have "gallery_distances fd G v ! m < gallery_distances fd G v ! i" using m(3) by blast
    with m(2) assms(3) show False by simp
  qed
  ultimately have "m = i" by simp
  with m(4) assms(6) show ?thesis by simp
qed

text \<open>
  The theorem at a gallery where Bob comes first and Alice second, both at distance 1
  from the query: Bob is selected.
\<close>

theorem match_tie_first_in_gallery_witness:
  "match_gallery euclidean_distance [(''Bob'', [1]), (''Alice'', [-1])] [0] 2
     = Inr (fst ([(''Bob'', [1::real]), (''Alice'', [-1])] ! 0))"
proof -
  let ?G = "[(''Bob'', [1::real]), (''Alice'', [-1])]"
  have d: "gallery_distances euclidean_distance ?G [0] = [1, 1]"
    by (simp add: euclidean_distance_def gallery_distances_def)
  show ?thesis
    by (rule match_tie_first_in_gallery [where i = 0 and j = 1]) (simp_all add: d)
qed

text \<open>
  Claim C7 as written fails: Bob and Alice are at the same distance, Alice is the
  lexicographically smaller label, and the program selects Bob, the first in the gallery.
\<close>

theorem match_tie_lexicographic_counterexample:
  "gallery_distances euclidean_distance [(''Bob'', [1]), (''Alice'', [-1])] [0] ! 0
     = gallery_distances euclidean_distance [(''Bob'', [1]), (''Alice'', [-1])] [0] ! 1
 \<and> ''Alice'' < ''Bob''
 \<and> match_gallery euclidean_distance [(''Bob'', [1]), (''Alice'', [-1])] [0] 2 = Inr ''Bob''"
  by (simp add: euclidean_distance_def gallery_distances_def match_gallery_def match_face_def
      argmin_def getitem_def)

section \<open>EncodingStore: proofs about the build\<close>

subsection \<open>Splitting and joining\<close>

lemma str_split_not_Nil: "str_split c s \<noteq> []"
  by (induction s) (auto split: list.splits)

lemma str_join_Cons: "ws \<noteq> [] \<Longrightarrow> str_join sep (w # ws) = w @ sep @ str_join sep ws"
  by (cases ws) auto

lemma str_join_snoc: "ws \<noteq> [] \<Longrightarrow> str_join sep (ws @ [w]) = str_join sep ws @ sep @ w"
proof (induction ws)
  case Nil
  then show ?case by simp
next
  case (Cons a ws)
  show ?case
  proof (cases "ws = []")
    case True
    then show ?thesis by simp
  next
    case False
    with Cons.IH show ?thesis by (simp add: str_join_Cons)
  qed
qed

lemma str_join_split: "str_join [c] (str_split c s) = s"
proof (induction s)
  case Nil
  then show ?case by simp
next
  case (Cons x s)
  show ?case
  proof (cases "x = c")
    case True
    with Cons.IH show ?thesis by (simp add: str_join_Cons str_split_not_Nil)
  next
    case False
    obtain w ws where sp: "str_split c s = w # ws"
      using str_split_not_Nil[of c s] by (cases "str_split c s") auto
    show ?thesis
    proof (cases "ws = []")
      case True
      with Cons.IH sp False show ?thesis by simp
    next
      case nonempty: False
      with Cons.IH sp False show ?thesis by (simp add: str_join_Cons)
    qed
  qed
qed

lemma last_str_split_no_sep: "c \<notin> set (last (str_split c s))"
proof (induction s)
  case Nil
  then show ?case by simp
next
  case (Cons x s)
  obtain w ws where sp: "str_split c s = w # ws"
    using str_split_not_Nil[of c s] by (cases "str_split c s") auto
  with Cons.IH show ?case by (cases "ws = []") auto
qed

lemma butlast_str_split_not_Nil: "c \<in> set s \<Longrightarrow> butlast (str_split c s) \<noteq> []"
proof (induction s)
  case Nil
  then show ?case by simp
next
  case (Cons x s)
  obtain w ws where sp: "str_split c s = w # ws"
    using str_split_not_Nil[of c s] by (cases "str_split c s") auto
  show ?case
  proof (cases "x = c")
    case True
    then show ?thesis by (simp add: str_split_not_Nil)
  next
    case False
    with Cons.prems have "c \<in> set s" by simp
    from Cons.IH[OF this] sp False show ?thesis by (cases "ws = []") auto
  qed
qed

text \<open>
  Claim C5, as far as the program follows it. For every file name that contains an
  underscore, the label is the part of the file name before its last underscore:
  the file name is the label, an underscore, and a rest without underscore (the
  disambiguator and the extension). "Alice_2.jpg" yields "Alice". Whatever follows the
  last underscore is dropped, numeric or not.
\<close>

theorem name_before_last_underscore:
  assumes "CHR ''_'' \<in> set filename"
  shows "\<exists>suffix. filename = name_of_filename filename @ ''_'' @ suffix \<and> CHR ''_'' \<notin> set suffix"
proof -
  let ?ps = "str_split (CHR ''_'') filename"
  have ne: "?ps \<noteq> []" by (rule str_split_not_Nil)
  have bl: "butlast ?ps \<noteq> []" using assms by (rule butlast_str_split_not_Nil)
  have "filename = str_join ''_'' ?ps" by (simp add: str_join_split)
  also have "?ps = butlast ?ps @ [last ?ps]" using ne by simp
  also have "str_join ''_'' (butlast ?ps @ [last ?ps]) = str_join ''_'' (butlast ?ps) @ ''_'' @ last ?ps"
    using bl by (rule str_join_snoc)
  finally have "filename = name_of_filename filename @ ''_'' @ last ?ps"
    by (simp add: name_of_filename_def)
  moreover have "CHR ''_'' \<notin> set (last ?ps)" by (rule last_str_split_no_sep)
  ultimately show ?thesis by blast
qed

theorem name_before_last_underscore_witness:
  "CHR ''_'' \<in> set ''Alice_2.jpg''
 \<and> name_of_filename ''Alice_2.jpg'' = ''Alice''
 \<and> (\<exists>suffix. ''Alice_2.jpg'' = name_of_filename ''Alice_2.jpg'' @ ''_'' @ suffix
        \<and> CHR ''_'' \<notin> set suffix)"
proof -
  have h: "CHR ''_'' \<in> set ''Alice_2.jpg''" by simp
  have v: "name_of_filename ''Alice_2.jpg'' = ''Alice''" by (simp add: name_of_filename_def)
  show ?thesis
    by (intro conjI) (rule h, rule v, rule name_before_last_underscore [OF h])
qed

text \<open>
  Claim C5 as written fails on accepted file names without an underscore-number suffix:
  "Alice.jpg" has no underscore, and the program gives it the empty label, where
  stripping a numeric disambiguator leaves "Alice"; "Alice_Smith.jpg" has no numeric
  disambiguator, and the program cuts it to "Alice".
\<close>

theorem name_without_suffix_counterexample:
  "accepted ''Alice.jpg''
 \<and> name_of_filename ''Alice.jpg'' = ''''
 \<and> spec_label ''Alice.jpg'' = ''Alice''
 \<and> accepted ''Alice_Smith.jpg''
 \<and> name_of_filename ''Alice_Smith.jpg'' = ''Alice''
 \<and> spec_label ''Alice_Smith.jpg'' = ''Alice_Smith''"
  by (simp add: name_of_filename_def spec_label_def is_digit_def accepted_def endswith_def)

subsection \<open>Averaging\<close>

text \<open>
  A rounded addition is commutative, whatever the rounding: it rounds the same exact
  sum. It is not associative, so only the mean of at most two vectors is independent of
  their order. Whether \<open>np.mean\<close> raises depends on the lengths of the vectors alone.
\<close>

lemma vec_add_commute: "vec_add fl a b = vec_add fl b a"
  unfolding vec_add_def
proof (induction a arbitrary: b)
  case Nil
  then show ?case by simp
next
  case (Cons x a)
  then show ?case by (cases b) (simp_all add: add.commute)
qed

lemma same_length_iff:
  "list_all (\<lambda>v. length v = length x) xs
     \<longleftrightarrow> (\<forall>u \<in> set (x # xs). \<forall>v \<in> set (x # xs). length u = length v)"
  unfolding list_all_iff by (metis set_ConsD list.set_intros(1) list.set_intros(2))

lemma np_mean_raises_perm:
  assumes "mset xs = mset ys"
  shows "np_mean fl xs = Inl e \<longleftrightarrow> np_mean fl ys = Inl e"
proof -
  define same where "same zs \<longleftrightarrow> (\<forall>u \<in> set zs. \<forall>v \<in> set zs. length u = length v)"
    for zs :: "encoding list"
  have r: "np_mean fl zs = Inl e \<longleftrightarrow> e = ValueError \<and> \<not> same zs" for zs
  proof (cases zs)
    case Nil
    then show ?thesis by (simp add: np_mean_def same_def)
  next
    case (Cons x zs')
    have "list_all (\<lambda>v. length v = length x) zs' \<longleftrightarrow> same zs"
      unfolding same_def Cons by (rule same_length_iff)
    then show ?thesis using Cons by (auto simp: np_mean_def)
  qed
  have "set xs = set ys" using assms by (rule mset_eq_setD)
  then have "same xs \<longleftrightarrow> same ys" unfolding same_def by (rule arg_cong)
  then show ?thesis by (simp only: r)
qed

lemma np_mean_error: "np_mean fl xs = Inl e \<Longrightarrow> e = ValueError"
  by (cases xs) (auto simp: np_mean_def split: if_splits)

lemma np_mean_swap: "np_mean fl [a, b] = np_mean fl [b, a]"
  using vec_add_commute [of fl a b] by (auto simp: np_mean_def)

lemma np_mean_two_perm:
  assumes "mset xs = mset ys" and "length xs \<le> 2"
  shows "np_mean fl xs = np_mean fl ys"
proof (cases xs)
  case Nil
  with assms(1) show ?thesis by simp
next
  case (Cons a xs')
  show ?thesis
  proof (cases xs')
    case Nil
    with Cons assms(1) have "ys = [a]" by (simp add: mset_single_iff_right)
    with Cons Nil show ?thesis by simp
  next
    case (Cons b xs'')
    with \<open>xs = a # xs'\<close> assms(2) have xs: "xs = [a, b]" by simp
    have "length xs = length ys" using assms(1) by (rule mset_eq_length)
    then have "length ys = Suc (Suc 0)" using xs by simp
    then obtain c d where ys: "ys = [c, d]"
      by (auto simp: length_Suc_conv)
    from assms(1) xs ys have "add_mset a {#b#} = add_mset c {#d#}" by simp
    then have "(a = c \<and> b = d) \<or> (a = d \<and> b = c)"
      by (auto simp: add_eq_conv_ex)
    then show ?thesis using xs ys np_mean_swap [of fl a b] by auto
  qed
qed

text \<open>
  The dictionary after the loop holds, for each label, the first encodings of its images
  in the order of the listing; its keys are distinct.
\<close>

lemma map_of_process_file:
  "map_of (fst (process_file fe (d, c) f)) label =
     (if accepted f \<and> name_of_filename f = label \<and> fe f \<noteq> []
      then (case map_of d label of
              None \<Rightarrow> Some [hd (fe f)]
            | Some es \<Rightarrow> Some (es @ [hd (fe f)]))
      else map_of d label)"
  by (auto simp: process_file_def Let_def update_conv' split: list.splits option.splits)

lemma map_of_process_files:
  "map_of (fst (foldl (process_file fe) (d, c) listing)) label =
     (case map_of d label of
        None \<Rightarrow> if label_images fe listing label = [] then None
                else Some (map (\<lambda>f. hd (fe f)) (label_images fe listing label))
      | Some es \<Rightarrow> Some (es @ map (\<lambda>f. hd (fe f)) (label_images fe listing label)))"
proof (induction listing arbitrary: d c)
  case Nil
  then show ?case by (simp add: label_images_def split: option.splits)
next
  case (Cons f listing)
  obtain d' c' where p: "process_file fe (d, c) f = (d', c')"
    by (cases "process_file fe (d, c) f")
  have d': "map_of d' label =
     (if accepted f \<and> name_of_filename f = label \<and> fe f \<noteq> []
      then (case map_of d label of
              None \<Rightarrow> Some [hd (fe f)]
            | Some es \<Rightarrow> Some (es @ [hd (fe f)]))
      else map_of d label)"
    using map_of_process_file [of fe d c f label] p by simp
  show ?case
    by (simp add: p Cons.IH d' label_images_def split: option.splits)
qed

lemma distinct_process_file:
  "distinct (map fst d) \<Longrightarrow> distinct (map fst (fst (process_file fe (d, c) f)))"
  by (auto simp: process_file_def Let_def distinct_update split: list.splits option.splits)

lemma distinct_process_files:
  "distinct (map fst d) \<Longrightarrow> distinct (map fst (fst (foldl (process_file fe) (d, c) listing)))"
proof (induction listing arbitrary: d c)
  case Nil
  then show ?case by simp
next
  case (Cons f listing)
  obtain d' c' where p: "process_file fe (d, c) f = (d', c')"
    by (cases "process_file fe (d, c) f")
  have "distinct (map fst d')" using distinct_process_file [OF Cons.prems, of fe c f] p by simp
  from Cons.IH [OF this] show ?case by (simp add: p)
qed

lemma average_encodings_error: "average_encodings fl d = Inl e \<Longrightarrow> e = ValueError"
  by (induction fl d rule: average_encodings.induct)
     (auto split: sum.splits dest: np_mean_error)

lemma average_encodings_raises_iff:
  "average_encodings fl d = Inl ValueError
     \<longleftrightarrow> (\<exists>p \<in> set d. np_mean fl (snd p) = Inl ValueError)"
proof (induction fl d rule: average_encodings.induct)
  case (1 fl)
  then show ?case by simp
next
  case (2 fl name encodings rest)
  show ?case
  proof (cases "np_mean fl encodings")
    case (Inl e)
    then have "e = ValueError" by (rule np_mean_error)
    with Inl show ?thesis by simp
  next
    case (Inr m)
    with "2.IH" [of m] show ?thesis by (auto split: sum.splits)
  qed
qed

lemma average_encodings_lookup:
  "average_encodings fl d = Inr ms \<Longrightarrow>
     map_of (zip (map fst d) ms) label =
       (case map_of d label of
          None \<Rightarrow> None
        | Some es \<Rightarrow> (case np_mean fl es of Inl e \<Rightarrow> None | Inr m \<Rightarrow> Some m))"
proof (induction fl d arbitrary: ms rule: average_encodings.induct)
  case (1 fl)
  then show ?case by simp
next
  case (2 fl name encodings rest)
  from "2.prems" obtain m ms' where m: "np_mean fl encodings = Inr m"
    and r: "average_encodings fl rest = Inr ms'" and ms: "ms = m # ms'"
    by (auto split: sum.splits)
  from "2.IH" [OF m r] show ?case by (simp add: ms m)
qed

lemma build_raises_iff:
  "average_encodings fl (fst (foldl (process_file fe) ([], 0) listing)) = Inl ValueError
     \<longleftrightarrow> (\<exists>n. np_mean fl (map (\<lambda>f. hd (fe f)) (label_images fe listing n)) = Inl ValueError)"
proof -
  let ?d = "fst (foldl (process_file fe) ([], 0) listing)"
  let ?s = "\<lambda>n. map (\<lambda>f. hd (fe f)) (label_images fe listing n)"
  have look: "map_of ?d n = (if label_images fe listing n = [] then None else Some (?s n))" for n
    by (simp add: map_of_process_files)
  have dist: "distinct (map fst ?d)" by (rule distinct_process_files) simp
  show ?thesis
  proof
    assume "average_encodings fl ?d = Inl ValueError"
    then obtain p where p: "p \<in> set ?d" "np_mean fl (snd p) = Inl ValueError"
      by (auto simp: average_encodings_raises_iff)
    then have "(fst p, snd p) \<in> set ?d" by simp
    then have "map_of ?d (fst p) = Some (snd p)" using dist by simp
    then have "snd p = ?s (fst p)" unfolding look by (simp split: if_splits)
    with p(2) show "\<exists>n. np_mean fl (?s n) = Inl ValueError" by metis
  next
    assume "\<exists>n. np_mean fl (?s n) = Inl ValueError"
    then obtain n where n: "np_mean fl (?s n) = Inl ValueError" by blast
    then have "label_images fe listing n \<noteq> []" by (auto simp: np_mean_def)
    then have "map_of ?d n = Some (?s n)" unfolding look by simp
    then have "(n, ?s n) \<in> set ?d" by (rule map_of_SomeD)
    with n show "average_encodings fl ?d = Inl ValueError"
      unfolding average_encodings_raises_iff by force
  qed
qed

lemma stored_vector_build:
  "stored_vector (load_students fl fe listing) label =
     (if \<exists>n. np_mean fl (map (\<lambda>f. hd (fe f)) (label_images fe listing n)) = Inl ValueError
      then Inl ValueError
      else Inr (if label_images fe listing label = [] then None
                else (case np_mean fl (map (\<lambda>f. hd (fe f)) (label_images fe listing label)) of
                        Inl e \<Rightarrow> None
                      | Inr m \<Rightarrow> Some m)))"
proof -
  let ?d = "fst (foldl (process_file fe) ([], 0) listing)"
  have look: "map_of ?d n = (if label_images fe listing n = [] then None
      else Some (map (\<lambda>f. hd (fe f)) (label_images fe listing n)))" for n
    by (simp add: map_of_process_files)
  show ?thesis
  proof (cases "average_encodings fl ?d")
    case (Inl e)
    then have e: "e = ValueError" by (rule average_encodings_error)
    with Inl have "average_encodings fl ?d = Inl ValueError" by simp
    then have "\<exists>n. np_mean fl (map (\<lambda>f. hd (fe f)) (label_images fe listing n)) = Inl ValueError"
      unfolding build_raises_iff .
    then show ?thesis using Inl e by (simp add: stored_vector_def load_students_def Let_def)
  next
    case (Inr ms)
    then have "average_encodings fl ?d \<noteq> Inl ValueError" by simp
    then have no: "\<not> (\<exists>n. np_mean fl (map (\<lambda>f. hd (fe f)) (label_images fe listing n))
                          = Inl ValueError)"
      unfolding build_raises_iff .
    have "stored_vector (load_students fl fe listing) label
            = Inr (map_of (zip (map fst ?d) ms) label)"
      using Inr by (simp add: stored_vector_def load_students_def Let_def)
    also have "map_of (zip (map fst ?d) ms) label =
       (case map_of ?d label of
          None \<Rightarrow> None
        | Some es \<Rightarrow> (case np_mean fl es of Inl e \<Rightarrow> None | Inr m \<Rightarrow> Some m))"
      using Inr by (rule average_encodings_lookup)
    finally show ?thesis using no by (simp add: look)
  qed
qed

text \<open>
  Claim C6. For a label with two images (or fewer), the vector stored for the label
  does not depend on the order in which the files are enumerated: two listings of the
  same files give the label the same averaged vector, and a build that raises in one
  order raises in the other. This holds for every rounding \<open>fl\<close>, so for the doubles of
  the program; other files, of other labels, may stand anywhere in the listing. In
  particular the images [A1, A2] and [A2, A1] of label "A" give the same stored vector.
\<close>

theorem build_two_images_order_independent:
  assumes "mset listing = mset listing'"
    and "length (label_images face_encodings listing label) \<le> 2"
  shows "stored_vector (load_students fl face_encodings listing) label
       = stored_vector (load_students fl face_encodings listing') label"
proof -
  define s where "s = (\<lambda>l n. map (\<lambda>f. hd (face_encodings f)) (label_images face_encodings l n))"
  have m: "mset (s listing n) = mset (s listing' n)" for n
    using assms(1) by (simp add: s_def label_images_def)
  have raises: "(\<exists>n. np_mean fl (s listing n) = Inl ValueError)
            \<longleftrightarrow> (\<exists>n. np_mean fl (s listing' n) = Inl ValueError)"
    using np_mean_raises_perm [OF m] by simp
  have two: "length (s listing label) \<le> 2" using assms(2) by (simp add: s_def)
  have mean: "np_mean fl (s listing label) = np_mean fl (s listing' label)"
    using m two by (rule np_mean_two_perm)
  have "length (s listing label) = length (s listing' label)"
    using m by (rule mset_eq_length)
  then have "length (label_images face_encodings listing label)
           = length (label_images face_encodings listing' label)"
    by (simp add: s_def)
  then have empty: "label_images face_encodings listing label = []
              \<longleftrightarrow> label_images face_encodings listing' label = []"
    by (simp only: length_0_conv [symmetric])
  have form: "stored_vector (load_students fl face_encodings l) label =
     (if \<exists>n. np_mean fl (s l n) = Inl ValueError
      then Inl ValueError
      else Inr (if label_images face_encodings l label = [] then None
                else (case np_mean fl (s l label) of Inl e \<Rightarrow> None | Inr m \<Rightarrow> Some m)))" for l
    unfolding s_def by (rule stored_vector_build)
  show ?thesis
    by (simp only: form raises empty mean)
qed

text \<open>
  The theorem at the two orders of the files "A_1.jpg" and "A_2.jpg", with encodings
  (1, 2) and (3, 4). The sums (4, 6) and the means (2, 3) are doubles, which rounding leaves
  as they are: both orders store (2, 3) for "A".
\<close>

theorem build_two_images_order_independent_witness:
  "mset [''A_1.jpg'', ''A_2.jpg''] = mset [''A_2.jpg'', ''A_1.jpg'']
 \<and> length (label_images example_face_encodings [''A_1.jpg'', ''A_2.jpg''] ''A'') \<le> 2
 \<and> stored_vector (load_students (\<lambda>x. x) example_face_encodings [''A_1.jpg'', ''A_2.jpg'']) ''A''
     = Inr (Some [2, 3])
 \<and> stored_vector (load_students (\<lambda>x. x) example_face_encodings [''A_1.jpg'', ''A_2.jpg'']) ''A''
     = stored_vector (load_students (\<lambda>x. x) example_face_encodings [''A_2.jpg'', ''A_1.jpg'']) ''A''"
proof -
  have h1: "mset [''A_1.jpg'', ''A_2.jpg''] = mset [''A_2.jpg'', ''A_1.jpg'']" by simp
  have h2: "length (label_images example_face_encodings [''A_1.jpg'', ''A_2.jpg''] ''A'') \<le> 2"
    by (simp add: label_images_def)
  have v: "stored_vector (load_students (\<lambda>x. x) example_face_encodings
             [''A_1.jpg'', ''A_2.jpg'']) ''A'' = Inr (Some [2, 3])"
    by (simp add: stored_vector_def load_students_def process_file_def
        example_face_encodings_def accepted_def endswith_def name_of_filename_def
        np_mean_def vec_add_def)
  show ?thesis
    by (intro conjI)
       (rule h1, rule h2, rule v, rule build_two_images_order_independent [OF h1 h2])
qed

text \<open>
  Beyond two images the order can matter, which is why the theorem stops there. With
  images whose encodings are \<open>2 ^ 55\<close>, 3 and \<open>- (2 ^ 55)\<close>, adding 3 to \<open>2 ^ 55\<close> is
  absorbed by the rounding, and the two orders store 0 and 1.
\<close>

lemma round_to_double_at:
  assumes "2 powi e \<le> \<bar>x\<bar>" and "\<bar>x\<bar> < 2 powi (e + 1)" and "- 1022 \<le> e"
  shows "round_to_double x = of_int (round_half_even (x / 2 powi (e - 52))) * 2 powi (e - 52)"
proof -
  have pos: "0 < \<bar>x\<bar>" using assms(1) by (smt (verit) zero_less_power_int zero_less_numeral)
  have a: "(2::real) powr real_of_int e = 2 powi e"
    by (rule powr_real_of_int') simp_all
  have "(2::real) powr real_of_int (e + 1) = 2 powi (e + 1)"
    by (rule powr_real_of_int') simp_all
  then have b: "(2::real) powr (real_of_int e + 1) = 2 powi (e + 1)"
    by simp
  have "(2::real) powr real_of_int e \<le> \<bar>x\<bar> \<and> \<bar>x\<bar> < 2 powr (real_of_int e + 1)"
    using assms(1,2) by (simp only: a b)
  then have "\<lfloor>log 2 \<bar>x\<bar>\<rfloor> = e" using pos by (simp add: floor_log_eq_powr_iff)
  then show ?thesis using pos assms(3) by (simp add: round_to_double_def)
qed

lemma round_to_double_0: "round_to_double 0 = 0"
  by (simp add: round_to_double_def)

lemma round_to_double_1: "round_to_double 1 = 1"
  using round_to_double_at [of 0 1] by (simp add: round_half_even_def)

lemma round_to_double_3: "round_to_double 3 = 3"
  using round_to_double_at [of 1 3] by (simp add: round_half_even_def)

lemma round_to_double_absorbs: "round_to_double 36028797018963971 = 36028797018963968"
  using round_to_double_at [of 55 36028797018963971] by (simp add: round_half_even_def)


lemma three_images_order_dependent:
  "stored_vector (load_students round_to_double example_three_encodings
      [''B_1.jpg'', ''B_2.jpg'', ''B_3.jpg'']) ''B'' = Inr (Some [0])
 \<and> stored_vector (load_students round_to_double example_three_encodings
      [''B_1.jpg'', ''B_3.jpg'', ''B_2.jpg'']) ''B'' = Inr (Some [1])"
  by (simp add: stored_vector_def load_students_def process_file_def
      example_three_encodings_def accepted_def endswith_def name_of_filename_def
      np_mean_def vec_add_def round_to_double_0 round_to_double_1 round_to_double_3
      round_to_double_absorbs)

section \<open>AttendanceLedger: proofs\<close>

subsection \<open>The daily record\<close>

text \<open>\<open>save_attendance\<close> never raises: the division is reached only with a non-zero divisor.\<close>

lemma percentage_of_total:
  "percentage_of present everyone =
     Inr (if everyone = [] then 0 else real (length present) / real (length everyone) * 100)"
  by (simp add: percentage_of_def py_truediv_def)

lemma save_attendance_total:
  "save_attendance files d present everyone =
     Inr (files(strftime_date d \<mapsto>
            \<lparr>date = strftime_date d,
             present_students = present,
             all_students = everyone,
             absent_students = set everyone - set present,
             total_students = length everyone,
             present_count = length present,
             attendance_percentage =
               (if everyone = [] then 0
                else real (length present) / real (length everyone) * 100)\<rparr>))"
  by (simp add: save_attendance_def percentage_of_total)


text \<open>
  Claim C3, as far as the program follows it. For every date, present list and
  all-students list, the record found for the date after the save has
  \<open>absent_students\<close> equal to the set difference of all students and present students,
  \<open>total_students\<close> the number of all students, \<open>present_count\<close> the number of present
  students, and \<open>attendance_percentage\<close> equal to present/total*100 as computed, without
  rounding to one decimal place (and 0 when there are no students).
\<close>

theorem save_attendance_record:
  "\<exists>r. saved_record files d present everyone = Some r
      \<and> date r = strftime_date d
      \<and> present_students r = present
      \<and> all_students r = everyone
      \<and> absent_students r = set everyone - set present
      \<and> total_students r = length everyone
      \<and> present_count r = length present
      \<and> attendance_percentage r =
           (if everyone = [] then 0
            else real (length present) / real (length everyone) * 100)"
  by (simp add: saved_record_def save_attendance_total get_attendance_def)

text \<open>
  The theorem at all_students = ["A", "B", "C"] and present_students = ["A"]: absent is
  the set of "B" and "C", and the percentage is 100/3.
\<close>

theorem save_attendance_record_witness:
  "\<exists>r. saved_record Map.empty 0 [''A''] [''A'', ''B'', ''C''] = Some r
      \<and> absent_students r = {''B'', ''C''}
      \<and> total_students r = 3
      \<and> present_count r = 1
      \<and> attendance_percentage r = 100 / 3"
proof -
  from save_attendance_record [of Map.empty 0 "[''A'']" "[''A'', ''B'', ''C'']"]
  obtain r where r:
    "saved_record Map.empty 0 [''A''] [''A'', ''B'', ''C''] = Some r"
    "absent_students r = set [''A'', ''B'', ''C''] - set [''A'']"
    "total_students r = length [''A'', ''B'', ''C'']"
    "present_count r = length [''A'']"
    "attendance_percentage r =
       (if [''A'', ''B'', ''C''] = [] then 0
        else real (length [''A'']) / real (length [''A'', ''B'', ''C'']) * 100)"
    by blast
  have a: "absent_students r = {''B'', ''C''}" using r(2) by auto
  have t: "total_students r = 3" using r(3) by simp
  have p: "present_count r = 1" using r(4) by simp
  have q: "attendance_percentage r = 100 / 3" using r(5) by simp
  from r(1) a t p q show ?thesis by blast
qed

text \<open>
  Claim C3 as written fails in its last part: for all_students = ["A", "B", "C"] and
  present_students = ["A"] the stored percentage is 100/3 (33.33...), not 33.3; nothing in
  the program rounds it.
\<close>

theorem percentage_not_rounded_counterexample:
  "map_option attendance_percentage (saved_record Map.empty 0 [''A''] [''A'', ''B'', ''C''])
     = Some (100 / 3)
 \<and> (100 / 3 :: real) \<noteq> 333 / 10"
  by (simp add: saved_record_def save_attendance_total get_attendance_def)

text \<open>
  Claim C9. For every call that saves a daily record, computing the percentage yields a
  value and never the division-by-zero error; with an empty all_students list the
  percentage is 0, and that is the percentage of the stored record.
\<close>

theorem empty_all_students_no_division:
  "(\<exists>q. percentage_of present everyone = Inr q)
 \<and> percentage_of present [] = Inr 0
 \<and> save_attendance files d present everyone \<noteq> Inl ZeroDivisionError
 \<and> map_option attendance_percentage (saved_record files d present []) = Some 0"
  by (simp add: percentage_of_total saved_record_def save_attendance_total get_attendance_def)

subsection \<open>The duplicate window\<close>

text \<open>
  The \<open>seconds\<close> field of the difference is the elapsed time in whole seconds with
  whole days discarded.
\<close>

lemma mod_day_div_second:
  "(x mod 86400000000) div 1000000 = (x div 1000000) mod 86400" for x :: int
proof -
  have e: "x mod 86400000000 = 1000000 * (x div 1000000 mod 86400) + x mod 1000000"
    using zmod_zmult2_eq [of 86400 x 1000000] by simp
  have "(1000000 * (x div 1000000 mod 86400) + x mod 1000000) div 1000000
          = x div 1000000 mod 86400"
    by simp
  with e show ?thesis by simp
qed

lemma seconds_datetime_sub:
  "seconds (datetime_sub a b) = ((a - b) div 1000000) mod 86400"
  by (simp add: datetime_sub_def mod_day_div_second)

lemma seconds_since_stored:
  "seconds (datetime_sub now (strptime stored)) = (now div 1000000 - stored) mod 86400"
proof -
  have "(now + (- stored) * 1000000) div 1000000 = (- stored) + now div 1000000"
    by (rule div_mult_self1) simp
  then have "(now - stored * 1000000) div 1000000 = now div 1000000 - stored" by simp
  then show ?thesis by (simp add: seconds_datetime_sub strptime_def)
qed

lemma must_record_present:
  assumes "self_duplicate_prevention self"
    and "map_of (self_present_students self) name = Some stored"
  shows "must_record self name now \<longleftrightarrow> 30 < (now div 1000000 - stored) mod 86400"
  using assms by (simp add: must_record_def seconds_since_stored)

lemma must_record_absent:
  "map_of (self_present_students self) name = None \<Longrightarrow> must_record self name now"
  by (simp add: must_record_def)

lemma update_ignored:
  "\<not> must_record self name now \<Longrightarrow> update_attendance_record self name ts now = Inr self"
  by (simp add: update_attendance_record_def)

lemma update_recorded:
  assumes "must_record self name now"
  shows "update_attendance_record self name ts now =
     Inr (self\<lparr>self_present_students := AList.update name ts (self_present_students self),
               attendance_files := (attendance_files self)(strftime_date now \<mapsto>
                 \<lparr>date = strftime_date now,
                  present_students = map fst (AList.update name ts (self_present_students self)),
                  all_students = self_known_face_names self,
                  absent_students = set (self_known_face_names self)
                    - set (map fst (AList.update name ts (self_present_students self))),
                  total_students = length (self_known_face_names self),
                  present_count = length (map fst (AList.update name ts (self_present_students self))),
                  attendance_percentage =
                    (if self_known_face_names self = [] then 0
                     else real (length (map fst (AList.update name ts (self_present_students self))))
                          / real (length (self_known_face_names self)) * 100)\<rparr>),
               writes := writes self + 1\<rparr>)"
  using assms by (simp add: update_attendance_record_def save_attendance_total Let_def)

lemma update_changes_writes:
  "must_record self name now \<Longrightarrow> update_attendance_record self name ts now \<noteq> Inr self"
proof
  assume m: "must_record self name now"
    and e: "update_attendance_record self name ts now = Inr self"
  from e have "map_sum id writes (update_attendance_record self name ts now) = Inr (writes self)"
    by simp
  then show False unfolding update_recorded [OF m] by simp
qed

lemma keys_update_absent:
  "map_of al k = None \<Longrightarrow> map fst (AList.update k v al) = map fst al @ [k]"
  by (simp add: update_keys map_of_eq_None_iff)

lemma keys_update_present:
  "map_of al k = Some w \<Longrightarrow> map fst (AList.update k v al) = map fst al"
  by (simp add: update_keys) (metis domI dom_map_of_conv_image_fst)

lemma count_list_absent_key:
  "map_of al k = None \<Longrightarrow> count_list (map fst al) k = 0"
  by (simp add: map_of_eq_None_iff)

lemma within_window_ignored:
  assumes "self_duplicate_prevention self"
    and "map_of (self_present_students self) name = Some stored"
    and "0 \<le> now - strptime stored" and "now - strptime stored < 31000000"
  shows "update_attendance_record self name ts now = Inr self"
proof -
  have lo: "0 \<le> now div 1000000 - stored"
    using assms(3) by (simp add: strptime_def) 
  have hi: "now div 1000000 - stored \<le> 30"
    using assms(4) by (simp add: strptime_def)
  have "(now div 1000000 - stored) mod 86400 = now div 1000000 - stored"
    using lo hi by simp
  with hi have "\<not> must_record self name now"
    using must_record_present [OF assms(1,2)] by simp
  then show ?thesis by (rule update_ignored)
qed

text \<open>
  Claim C2. With duplicate prevention on and the name not yet present: the sighting at
  \<open>t0\<close> is recorded (the name is present exactly once, with timestamp \<open>t0\<close>, and the
  record written for the day lists the present names); a second sighting while the clock
  shows second \<open>t0 + 5\<close> returns the same state (so neither the dictionary nor the record
  directory nor the count of writes changes); a third while the clock shows second
  \<open>t0 + 31\<close> leaves the present names as they are, in memory and in the record it
  writes, and moves the stored timestamp to \<open>t0 + 31\<close>. And in every state, a sighting
  of a present name less than 31 seconds after its stored timestamp returns the state
  unchanged.
\<close>

theorem dedup_window:
  assumes dup: "self_duplicate_prevention self"
    and absent: "map_of (self_present_students self) name = None"
    and n1: "now1 div 1000000 = t0 + 5"
    and n2: "now2 div 1000000 = t0 + 31"
  shows "\<exists>s1 s3.
      update_attendance_record self name t0 now0 = Inr s1
    \<and> map_of (self_present_students s1) name = Some t0
    \<and> count_list (map fst (self_present_students s1)) name = 1
    \<and> map_option present_students (attendance_files s1 (strftime_date now0))
        = Some (map fst (self_present_students s1))
    \<and> update_attendance_record s1 name (t0 + 5) now1 = Inr s1
    \<and> update_attendance_record s1 name (t0 + 31) now2 = Inr s3
    \<and> map fst (self_present_students s3) = map fst (self_present_students s1)
    \<and> map_of (self_present_students s3) name = Some (t0 + 31)
    \<and> map_option present_students (attendance_files s3 (strftime_date now2))
        = Some (map fst (self_present_students s1))
    \<and> writes s3 = writes s1 + 1
    \<and> (\<forall>st stored ts now.
          self_duplicate_prevention st
        \<and> map_of (self_present_students st) name = Some stored
        \<and> 0 \<le> now - strptime stored \<and> now - strptime stored < 31000000
        \<longrightarrow> update_attendance_record st name ts now = Inr st)"
proof -
  have m0: "must_record self name now0" using absent by (rule must_record_absent)
  obtain s1 where s1: "update_attendance_record self name t0 now0 = Inr s1"
    and p1: "self_present_students s1 = AList.update name t0 (self_present_students self)"
    and d1: "self_duplicate_prevention s1"
    and r1: "map_option present_students (attendance_files s1 (strftime_date now0))
               = Some (map fst (AList.update name t0 (self_present_students self)))"
    using update_recorded [OF m0, of t0] dup by simp
  have a: "map_of (self_present_students s1) name = Some t0"
    by (simp add: p1 update_conv')
  have b: "count_list (map fst (self_present_students s1)) name = 1"
    by (simp add: p1 keys_update_absent [OF absent] count_list_absent_key [OF absent])
  have r1': "map_option present_students (attendance_files s1 (strftime_date now0))
               = Some (map fst (self_present_students s1))"
    using r1 by (simp only: p1)
  have "\<not> must_record s1 name now1"
    using must_record_present [OF d1 a, of now1] n1 by simp
  then have c: "update_attendance_record s1 name (t0 + 5) now1 = Inr s1"
    by (rule update_ignored)
  have m2: "must_record s1 name now2"
    using must_record_present [OF d1 a, of now2] n2 by simp
  obtain s3 where s3: "update_attendance_record s1 name (t0 + 31) now2 = Inr s3"
    and p3: "self_present_students s3 = AList.update name (t0 + 31) (self_present_students s1)"
    and w3: "writes s3 = writes s1 + 1"
    and r3: "map_option present_students (attendance_files s3 (strftime_date now2))
               = Some (map fst (AList.update name (t0 + 31) (self_present_students s1)))"
    using update_recorded [OF m2, of "t0 + 31"] by simp
  have k: "map fst (AList.update name (t0 + 31) (self_present_students s1))
             = map fst (self_present_students s1)"
    by (rule keys_update_present [OF a])
  have e: "map fst (self_present_students s3) = map fst (self_present_students s1)"
    by (simp only: p3 k)
  have r3': "map_option present_students (attendance_files s3 (strftime_date now2))
               = Some (map fst (self_present_students s1))"
    using r3 by (simp only: k)
  have f: "map_of (self_present_students s3) name = Some (t0 + 31)"
    by (simp add: p3 update_conv')
  have g: "\<forall>st stored ts now.
          self_duplicate_prevention st
        \<and> map_of (self_present_students st) name = Some stored
        \<and> 0 \<le> now - strptime stored \<and> now - strptime stored < 31000000
        \<longrightarrow> update_attendance_record st name ts now = Inr st"
    using within_window_ignored by blast
  from s1 a b r1' c s3 e f r3' w3 g show ?thesis by blast
qed

text \<open>The theorem for "Bob", first seen at second 1000 of a fresh session.\<close>

theorem dedup_window_witness:
  "self_duplicate_prevention (init_system Map.empty)
 \<and> map_of (self_present_students (init_system Map.empty)) ''Bob'' = None
 \<and> (1005250000 :: int) div 1000000 = 1000 + 5
 \<and> (1031250000 :: int) div 1000000 = 1000 + 31
 \<and> (\<exists>s1 s3.
        update_attendance_record (init_system Map.empty) ''Bob'' 1000 1000250000 = Inr s1
      \<and> map_of (self_present_students s1) ''Bob'' = Some 1000
      \<and> count_list (map fst (self_present_students s1)) ''Bob'' = 1
      \<and> update_attendance_record s1 ''Bob'' (1000 + 5) 1005250000 = Inr s1
      \<and> update_attendance_record s1 ''Bob'' (1000 + 31) 1031250000 = Inr s3
      \<and> map fst (self_present_students s3) = map fst (self_present_students s1)
      \<and> map_of (self_present_students s3) ''Bob'' = Some (1000 + 31))"
proof -
  have h1: "self_duplicate_prevention (init_system Map.empty)" by (simp add: init_system_def)
  have h2: "map_of (self_present_students (init_system Map.empty)) ''Bob'' = None"
    by (simp add: init_system_def)
  have h3: "(1005250000 :: int) div 1000000 = 1000 + 5" by simp
  have h4: "(1031250000 :: int) div 1000000 = 1000 + 31" by simp
  from dedup_window [OF h1 h2 h3 h4, where ?now0.0 = 1000250000]
  obtain s1 s3 where
    "update_attendance_record (init_system Map.empty) ''Bob'' 1000 1000250000 = Inr s1"
    "map_of (self_present_students s1) ''Bob'' = Some 1000"
    "count_list (map fst (self_present_students s1)) ''Bob'' = 1"
    "update_attendance_record s1 ''Bob'' (1000 + 5) 1005250000 = Inr s1"
    "update_attendance_record s1 ''Bob'' (1000 + 31) 1031250000 = Inr s3"
    "map fst (self_present_students s3) = map fst (self_present_students s1)"
    "map_of (self_present_students s3) ''Bob'' = Some (1000 + 31)"
    by blast
  with h1 h2 h3 h4 show ?thesis by blast
qed

text \<open>
  Claim C10. With duplicate prevention on, a sighting of a name already present returns
  the state unchanged if and only if the \<open>seconds\<close> field of the elapsed time (whole
  days discarded) is at most 30. So a sighting exactly one day and ten seconds after the
  stored timestamp is ignored, and the timestamp is not updated.
\<close>

theorem dedup_ignores_whole_days:
  assumes "self_duplicate_prevention self"
    and "map_of (self_present_students self) name = Some stored"
  shows "(update_attendance_record self name ts now = Inr self
            \<longleftrightarrow> seconds (datetime_sub now (strptime stored)) \<le> 30)
       \<and> seconds (datetime_sub now (strptime stored))
            = ((now - strptime stored) div 1000000) mod 86400
       \<and> update_attendance_record self name ts (strptime stored + 86410000000) = Inr self"
proof -
  have iff: "must_record self name t \<longleftrightarrow> 30 < seconds (datetime_sub t (strptime stored))" for t
    using assms by (simp add: must_record_def)
  have 1: "update_attendance_record self name ts now = Inr self
            \<longleftrightarrow> seconds (datetime_sub now (strptime stored)) \<le> 30"
    using iff [of now] update_ignored [of self name now ts] update_changes_writes [of self name now ts]
    by auto
  have 2: "seconds (datetime_sub now (strptime stored))
            = ((now - strptime stored) div 1000000) mod 86400"
    by (rule seconds_datetime_sub)
  have "seconds (datetime_sub (strptime stored + 86410000000) (strptime stored)) = 10"
    by (simp add: seconds_datetime_sub)
  then have "\<not> must_record self name (strptime stored + 86410000000)"
    using iff by simp
  then have 3: "update_attendance_record self name ts (strptime stored + 86410000000) = Inr self"
    by (rule update_ignored)
  from 1 2 3 show ?thesis by blast
qed

text \<open>The theorem for "Bob", stored at second 1000 and seen again at second 87410.\<close>

theorem dedup_ignores_whole_days_witness:
  "self_duplicate_prevention ((init_system Map.empty)\<lparr>self_present_students := [(''Bob'', 1000)]\<rparr>)
 \<and> map_of (self_present_students
       ((init_system Map.empty)\<lparr>self_present_students := [(''Bob'', 1000)]\<rparr>)) ''Bob'' = Some 1000
 \<and> strptime 1000 + 86410000000 = 87410000000
 \<and> update_attendance_record
       ((init_system Map.empty)\<lparr>self_present_students := [(''Bob'', 1000)]\<rparr>)
       ''Bob'' 87410 87410000000
     = Inr ((init_system Map.empty)\<lparr>self_present_students := [(''Bob'', 1000)]\<rparr>)"
proof -
  let ?s = "(init_system Map.empty)\<lparr>self_present_students := [(''Bob'', 1000)]\<rparr>"
  have h1: "self_duplicate_prevention ?s" by (simp add: init_system_def)
  have h2: "map_of (self_present_students ?s) ''Bob'' = Some 1000" by simp
  have t: "strptime 1000 + 86410000000 = 87410000000" by (simp add: strptime_def)
  have "update_attendance_record ?s ''Bob'' 87410 (strptime 1000 + 86410000000) = Inr ?s"
    using dedup_ignores_whole_days [OF h1 h2, of 87410 0] by blast
  then have "update_attendance_record ?s ''Bob'' 87410 87410000000 = Inr ?s"
    by (simp only: t)
  with h1 h2 t show ?thesis by blast
qed

subsection \<open>Each label at most once\<close>

text \<open>
  The keys of a dictionary are distinct. Every handler keeps that, and keeps every
  record of the directory free of repetitions, since what it writes is the list of keys.
\<close>

lemma handle_preserves_distinct:
  assumes "distinct (map fst (self_present_students self))"
    and "\<forall>d r. attendance_files self d = Some r \<longrightarrow> distinct (present_students r)"
  shows "\<exists>s. handle self ev = Inr s
           \<and> distinct (map fst (self_present_students s))
           \<and> (\<forall>d r. attendance_files s d = Some r \<longrightarrow> distinct (present_students r))"
proof (cases ev)
  case (Sighting name ts now)
  show ?thesis
  proof (cases "must_record self name now")
    case True
    have "distinct (map fst (AList.update name ts (self_present_students self)))"
      using assms(1) by (rule distinct_update)
    then show ?thesis
      using assms(2) by (simp add: Sighting update_recorded [OF True])
  next
    case False
    then show ?thesis using assms by (simp add: Sighting update_ignored)
  qed
next
  case (Clear now)
  then show ?thesis
    using assms(2)
    by (auto simp: clear_attendance_def manager_clear_attendance_def split: option.splits)
next
  case (SetDuplicatePrevention b)
  then show ?thesis using assms by simp
next
  case (LoadEncodingSet names)
  then show ?thesis using assms by simp
qed

lemma run_events_preserves_distinct:
  assumes "distinct (map fst (self_present_students self))"
    and "\<forall>d r. attendance_files self d = Some r \<longrightarrow> distinct (present_students r)"
  shows "\<exists>s. run_events self evs = Inr s
           \<and> distinct (map fst (self_present_students s))
           \<and> (\<forall>d r. attendance_files s d = Some r \<longrightarrow> distinct (present_students r))"
  using assms
proof (induction evs arbitrary: self)
  case Nil
  then show ?case by simp
next
  case (Cons ev evs)
  from handle_preserves_distinct [OF Cons.prems, of ev] obtain s where s:
    "handle self ev = Inr s" "distinct (map fst (self_present_students s))"
    "\<forall>d r. attendance_files s d = Some r \<longrightarrow> distinct (present_students r)"
    by blast
  from Cons.IH [OF s(2,3)] s(1) show ?case by simp
qed

text \<open>
  Claim C4. Whatever sequence of events a session handles (sightings in any number,
  clearing, the check box, loading encoding sets), started on a record directory whose
  records list nobody twice, it runs without error, and afterwards every date's record
  lists each person label at most once among its present students.
\<close>

theorem present_at_most_once:
  assumes "\<forall>d r. files d = Some r \<longrightarrow> distinct (present_students r)"
  shows "\<exists>s. run_events (init_system files) evs = Inr s
           \<and> (\<forall>d r. attendance_files s d = Some r \<longrightarrow> distinct (present_students r))"
proof -
  have "distinct (map fst (self_present_students (init_system files)))"
    by (simp add: init_system_def)
  moreover have "\<forall>d r. attendance_files (init_system files) d = Some r
      \<longrightarrow> distinct (present_students r)"
    using assms by (simp add: init_system_def)
  ultimately show ?thesis
    using run_events_preserves_distinct [of "init_system files" evs] by blast
qed

text \<open>
  The theorem on a session that starts with an empty record directory, in which Bob is
  sighted three times and Al once.
\<close>

theorem present_at_most_once_witness:
  "\<exists>s. run_events (init_system Map.empty)
           [LoadEncodingSet [''Al'', ''Bob''],
            Sighting ''Bob'' 1000 1000250000,
            SetDuplicatePrevention False,
            Sighting ''Bob'' 1001 1001250000,
            Sighting ''Al'' 1002 1002250000,
            Sighting ''Bob'' 1003 1003250000] = Inr s
        \<and> (\<forall>d r. attendance_files s d = Some r \<longrightarrow> distinct (present_students r))"
proof -
  have h: "\<forall>d r. (Map.empty :: attendance_dir) d = Some r \<longrightarrow> distinct (present_students r)"
    by simp
  show ?thesis
    by (rule present_at_most_once [OF h])
qed

text \<open>That session, run: four writes, Bob and Al present once each.\<close>

lemma ledger_example_run:
  "map_sum id (\<lambda>s. (self_present_students s, writes s,
                     map_option present_students (attendance_files s 0)))
     (run_events (init_system Map.empty)
           [LoadEncodingSet [''Al'', ''Bob''],
            Sighting ''Bob'' 1000 1000250000,
            SetDuplicatePrevention False,
            Sighting ''Bob'' 1001 1001250000,
            Sighting ''Al'' 1002 1002250000,
            Sighting ''Bob'' 1003 1003250000])
   = Inr ([(''Bob'', 1003), (''Al'', 1002)], 4, Some [''Bob'', ''Al''])"
  by (simp add: init_system_def update_attendance_record_def must_record_def
      save_attendance_total strftime_date_def)

section \<open>EncodingStore: proofs about saving\<close>

lemma dataset_paths_differ: "path_join p ''encodings.pkl'' \<noteq> path_join p ''info.json''"
  by (simp add: path_join_def)

text \<open>
  Claim C8, as far as the program follows it. Saving a dataset writes the gallery file
  and then the metadata file in place. When no step fails, no error is reported, a
  subsequent load returns the saved gallery, and the metadata file holds the new
  metadata. When opening the gallery file fails, the stored files are left as they
  were. (A failure after that point is the subject of the counterexample below.)
\<close>

theorem save_encoding_set_in_place:
  "snd (save_encoding_set NoFault fs p n descr encodings names c src now) = None
 \<and> load_encoding_set (fst (save_encoding_set NoFault fs p n descr encodings names c src now)) p
     = Inr (encodings, names)
 \<and> fst (save_encoding_set NoFault fs p n descr encodings names c src now) (path_join p ''info.json'')
     = Some (Complete (Json \<lparr>info_name = n, info_description = descr,
                              created_date = strftime_timestamp now,
                              student_count = card (set names),
                              images_processed = c, source_directory = src\<rparr>))
 \<and> save_encoding_set OpenEncodingsFails fs p n descr encodings names c src now
     = (fs, Some OSError)"
  using dataset_paths_differ [of p]
  by (simp add: save_encoding_set_def load_encoding_set_def)

text \<open>
  Claim C8 as written fails: there is no write-then-rename. A dataset "ds" holds the
  gallery of "Old". A save of the gallery of "New" whose dump fails at once leaves
  \<open>encodings.pkl\<close> truncated, and the load that succeeded before now raises. A save that
  fails when opening \<open>info.json\<close> leaves the new gallery in place without its metadata.
\<close>

theorem save_not_atomic_counterexample:
  "load_encoding_set [''ds/encodings.pkl'' \<mapsto> Complete (Pickle [[0]] [''Old''])] ''ds''
     = Inr ([[0]], [''Old''])
 \<and> fst (save_encoding_set (DumpEncodingsFails 0)
          [''ds/encodings.pkl'' \<mapsto> Complete (Pickle [[0]] [''Old''])]
          ''ds'' ''ds'' ''demo'' [[1]] [''New''] 1 ''images'' 0) ''ds/encodings.pkl''
     = Some (Truncated (Pickle [[1]] [''New'']) 0)
 \<and> load_encoding_set
       (fst (save_encoding_set (DumpEncodingsFails 0)
          [''ds/encodings.pkl'' \<mapsto> Complete (Pickle [[0]] [''Old''])]
          ''ds'' ''ds'' ''demo'' [[1]] [''New''] 1 ''images'' 0)) ''ds''
     = Inl ValueError
 \<and> load_encoding_set
       (fst (save_encoding_set OpenInfoFails
          [''ds/encodings.pkl'' \<mapsto> Complete (Pickle [[0]] [''Old''])]
          ''ds'' ''ds'' ''demo'' [[1]] [''New''] 1 ''images'' 0)) ''ds''
     = Inr ([[1]], [''New''])
 \<and> fst (save_encoding_set OpenInfoFails
          [''ds/encodings.pkl'' \<mapsto> Complete (Pickle [[0]] [''Old''])]
          ''ds'' ''ds'' ''demo'' [[1]] [''New''] 1 ''images'' 0) ''ds/info.json''
     = None"
  by (simp add: save_encoding_set_def load_encoding_set_def path_join_def)

end
